theory Spec2Isabelle
  imports Complex_Main
begin

section \<open>Digital Ripples: the values of the sketch\<close>

text \<open>
  The embedding follows \<^verbatim>\<open>src/sketch.js\<close>. A JavaScript number is modelled as a
  \<^typ>\<open>real\<close> where the code can only hold a number there, and as a real or
  \<^verbatim>\<open>NaN\<close> in the one field, \<^verbatim>\<open>meter\<close>, that the code can make \<^verbatim>\<open>NaN\<close>. The
  properties below are about comparisons, clamps and sums of a few decimal constants,
  and are stated over exact arithmetic. The clock \<^verbatim>\<open>millis()\<close> is an input: every
  function that reads it takes the reading \<open>now\<close> as an argument, one reading for each
  call of the function.
\<close>

subsection \<open>Action types\<close>

text \<open>
  \<^verbatim>\<open>ACTIONS\<close> holds four distinct objects, written by object literals. The
  constructors below carry the names of its members. The specification names the kinds
  Positive, Negative, NoiseComment and SilenceComment: Negative, the dislike kind, is
  \<open>DISLIKE\<close>; NoiseComment, the kind with the micro-ripples, is \<open>POSITIVE_COMMENT\<close>;
  SilenceComment, the absorber, is \<open>NEGATIVE_COMMENT\<close>. The scenarios of the
  specification say Positive for the kind with the weight 0.20 and the micro-ripples,
  which is \<open>POSITIVE_COMMENT\<close>.
\<close>

datatype action = LIKE | DISLIKE | POSITIVE_COMMENT | NEGATIVE_COMMENT

text \<open>
  The parameter \<^verbatim>\<open>actionType\<close> is untyped in the source. The values modelled for it
  are the four objects of \<^verbatim>\<open>ACTIONS\<close>, the strings, \<^verbatim>\<open>undefined\<close> (what a
  misspelt member such as \<^verbatim>\<open>ACTIONS.SHARE\<close> evaluates to) and \<^verbatim>\<open>null\<close> (what
  \<^verbatim>\<open>handleClick\<close> returns beside a button). Objects other than the four are not
  modelled. The operator \<^verbatim>\<open>===\<close> on these values is equality of the datatype.
\<close>

datatype js_value =
    ACTIONS action
  | String string
  | Undefined
  | Null

text \<open>
  The property key of a value, as used by a computed key \<^verbatim>\<open>{[v]: ...}\<close> and by a
  lookup \<^verbatim>\<open>obj[v]\<close>. The four objects of \<^verbatim>\<open>ACTIONS\<close> are plain objects with no
  \<^verbatim>\<open>toString\<close> of their own, so each gives the key \<^verbatim>\<open>"[object Object]"\<close>.
\<close>

fun toPropertyKey :: "js_value \<Rightarrow> string" where
  "toPropertyKey (ACTIONS a) = ''[object Object]''"
| "toPropertyKey (String s) = s"
| "toPropertyKey Undefined = ''undefined''"
| "toPropertyKey Null = ''null''"

text \<open>
  The property names of \<^verbatim>\<open>Object.prototype\<close>, which every object literal inherits:
  those of the ECMAScript standard, with the legacy accessors that browsers define.
  Each holds a function, except \<^verbatim>\<open>__proto__\<close>, which reads as \<^verbatim>\<open>Object.prototype\<close>
  itself. None of the values is a number and none is falsy.
\<close>

definition Object_prototype_keys :: "string list" where
  "Object_prototype_keys =
     [''constructor'', ''hasOwnProperty'', ''isPrototypeOf'', ''propertyIsEnumerable'',
      ''toLocaleString'', ''toString'', ''valueOf'', ''__proto__'',
      ''__defineGetter__'', ''__defineSetter__'', ''__lookupGetter__'', ''__lookupSetter__'']"

subsection \<open>Numbers that may be NaN\<close>

datatype number = Num real | NaN

text \<open>The comparisons \<^verbatim>\<open>>\<close>, \<^verbatim>\<open>>=\<close> and \<^verbatim>\<open><\<close> with a constant: false on \<^verbatim>\<open>NaN\<close>.\<close>

fun num_gt :: "number \<Rightarrow> real \<Rightarrow> bool" where
  "num_gt (Num m) c = (c < m)"
| "num_gt NaN c = False"

fun num_ge :: "number \<Rightarrow> real \<Rightarrow> bool" where
  "num_ge (Num m) c = (c \<le> m)"
| "num_ge NaN c = False"

fun num_lt :: "number \<Rightarrow> real \<Rightarrow> bool" where
  "num_lt (Num m) c = (m < c)"
| "num_lt NaN c = False"

subsection \<open>The library functions used\<close>

text \<open>
  \<^verbatim>\<open>map(n, start1, stop1, start2, stop2)\<close> of p5.js without clamping. The functions
  \<^verbatim>\<open>min\<close> and \<^verbatim>\<open>max\<close> of p5.js on two arguments are \<^verbatim>\<open>Math.min\<close> and
  \<^verbatim>\<open>Math.max\<close>: on two numbers \<^const>\<open>min\<close> and \<^const>\<open>max\<close>, and \<^verbatim>\<open>NaN\<close> when an
  argument is \<^verbatim>\<open>NaN\<close> or a string that is no numeral.
\<close>

definition map_p5 :: "real \<Rightarrow> real \<Rightarrow> real \<Rightarrow> real \<Rightarrow> real \<Rightarrow> real" where
  "map_p5 n start1 stop1 start2 stop2 =
     (n - start1) / (stop1 - start1) * (stop2 - start2) + start2"

section \<open>ActivityManager\<close>

datatype STATE = CALM | ACTIVE | OVERLOAD | RECOVER

record ActivityManager =
  meter :: number
  state :: STATE
  overloadThreshold :: real
  decayRate :: real
  overloadStartTime :: real
  recoverStartTime :: real
  blackoutAlpha :: real
  weights :: "string \<rightharpoonup> real"

text \<open>
  The constructor. The field \<open>weights\<close> holds the own properties of the object: the
  literal defines its four computed keys in the order written, and a later definition
  of the same key replaces the earlier value.
\<close>

definition new_ActivityManager :: ActivityManager where
  "new_ActivityManager =
     \<lparr> meter = Num 0.0,
       state = CALM,
       overloadThreshold = 1.0,
       decayRate = 0.001,
       overloadStartTime = 0,
       recoverStartTime = 0,
       blackoutAlpha = 0,
       weights = Map.empty
         (toPropertyKey (ACTIONS LIKE) \<mapsto> 0.15,
          toPropertyKey (ACTIONS DISLIKE) \<mapsto> 0.18,
          toPropertyKey (ACTIONS POSITIVE_COMMENT) \<mapsto> 0.20,
          toPropertyKey (ACTIONS NEGATIVE_COMMENT) \<mapsto> 0.12) \<rparr>"

definition triggerOverload :: "ActivityManager \<Rightarrow> real \<Rightarrow> ActivityManager" where
  "triggerOverload s now =
     s\<lparr> state := OVERLOAD, overloadStartTime := now, blackoutAlpha := 0 \<rparr>"

text \<open>
  The value of \<^verbatim>\<open>this.weights[actionType] || 0.15\<close>. The lookup reads an own property
  of the table, else a property of \<^verbatim>\<open>Object.prototype\<close>, else \<^verbatim>\<open>undefined\<close>; the
  operator \<^verbatim>\<open>||\<close> replaces \<^verbatim>\<open>undefined\<close> and \<open>0\<close> by its right operand and keeps an
  inherited function or object.
\<close>

datatype weight_value = Weight real | Inherited

definition weight_of :: "ActivityManager \<Rightarrow> js_value \<Rightarrow> weight_value" where
  "weight_of s actionType =
     (let key = toPropertyKey actionType
      in case weights s key of
           Some w \<Rightarrow> if w = 0 then Weight 0.15 else Weight w
         | None \<Rightarrow> if key \<in> set Object_prototype_keys then Inherited else Weight 0.15)"

text \<open>
  \<^verbatim>\<open>min(this.meter + weight, cap)\<close>. With a function or object for \<^verbatim>\<open>weight\<close> the
  operator \<^verbatim>\<open>+\<close> builds a string that is no numeral, and \<^verbatim>\<open>min\<close> of it is
  \<^verbatim>\<open>NaN\<close>.
\<close>

fun min_sum :: "number \<Rightarrow> weight_value \<Rightarrow> real \<Rightarrow> number" where
  "min_sum (Num m) (Weight w) cap = Num (min (m + w) cap)"
| "min_sum NaN (Weight w) cap = NaN"
| "min_sum m Inherited cap = NaN"

definition addActivity :: "ActivityManager \<Rightarrow> js_value \<Rightarrow> real \<Rightarrow> ActivityManager" where
  "addActivity s actionType now =
     (if state s = OVERLOAD then s
      else
        let weight = weight_of s actionType;
            s1 = s\<lparr> meter := min_sum (meter s) weight 1.5 \<rparr>;
            s2 = (if num_gt (meter s1) 0.3 \<and> state s1 = CALM
                  then s1\<lparr> state := ACTIVE \<rparr> else s1)
        in if num_ge (meter s2) (overloadThreshold s2) \<and> state s2 \<noteq> OVERLOAD
           then triggerOverload s2 now else s2)"

text \<open>\<^verbatim>\<open>max(0, this.meter - this.decayRate)\<close>.\<close>

fun max_diff :: "real \<Rightarrow> number \<Rightarrow> real \<Rightarrow> number" where
  "max_diff lo (Num m) d = Num (max lo (m - d))"
| "max_diff lo NaN d = NaN"

text \<open>The three blocks of \<^verbatim>\<open>update()\<close>, in the order of the source.\<close>

definition update_decay :: "ActivityManager \<Rightarrow> ActivityManager" where
  "update_decay s =
     (if state s = CALM \<or> state s = ACTIVE then
        let s1 = s\<lparr> meter := max_diff 0 (meter s) (decayRate s) \<rparr>
        in if num_lt (meter s1) 0.2 \<and> state s1 = ACTIVE then s1\<lparr> state := CALM \<rparr> else s1
      else s)"

definition update_overload :: "ActivityManager \<Rightarrow> real \<Rightarrow> ActivityManager" where
  "update_overload s now =
     (if state s = OVERLOAD then
        let elapsed = now - overloadStartTime s;
            s1 = (if elapsed < 2000
                  then s\<lparr> blackoutAlpha := map_p5 elapsed 0 2000 0 255 \<rparr>
                  else s\<lparr> blackoutAlpha := 255 \<rparr>)
        in if elapsed > 7000 then s1\<lparr> state := RECOVER, recoverStartTime := now \<rparr> else s1
      else s)"

definition update_recover :: "ActivityManager \<Rightarrow> real \<Rightarrow> ActivityManager" where
  "update_recover s now =
     (if state s = RECOVER then
        let elapsed = now - recoverStartTime s
        in if elapsed < 3000
           then s\<lparr> blackoutAlpha := map_p5 elapsed 0 3000 255 0 \<rparr>
           else s\<lparr> blackoutAlpha := 0, meter := Num 0.3, state := CALM \<rparr>
      else s)"

definition update :: "ActivityManager \<Rightarrow> real \<Rightarrow> ActivityManager" where
  "update s now = update_recover (update_overload (update_decay s) now) now"

definition shouldSpawnRipples :: "ActivityManager \<Rightarrow> bool" where
  "shouldSpawnRipples s = (state s \<noteq> OVERLOAD)"

text \<open>
  The calls the sketch makes on the manager: \<^verbatim>\<open>addActivity\<close> from the input handlers
  and \<^verbatim>\<open>update\<close> from \<^verbatim>\<open>draw\<close>, each with the clock reading of the call.
\<close>

datatype event = AddActivity js_value real | Update real

fun step :: "ActivityManager \<Rightarrow> event \<Rightarrow> ActivityManager" where
  "step s (AddActivity actionType now) = addActivity s actionType now"
| "step s (Update now) = update s now"

definition run :: "event list \<Rightarrow> ActivityManager" where
  "run es = foldl step new_ActivityManager es"

text \<open>A sequence of calls of \<^verbatim>\<open>addActivity\<close>, each with its kind and clock reading.\<close>

definition add_calls :: "(js_value \<times> real) list \<Rightarrow> event list" where
  "add_calls kts = map (\<lambda>(k, t). AddActivity k t) kts"

text \<open>
  An event as the input handlers produce it: \<^verbatim>\<open>mousePressed\<close> and \<^verbatim>\<open>keyPressed\<close> call
  \<^verbatim>\<open>addActivity\<close> with one of the four objects of \<^verbatim>\<open>ACTIONS\<close> only.
\<close>

fun known_kind :: "event \<Rightarrow> bool" where
  "known_kind (AddActivity (ACTIONS a) now) = True"
| "known_kind (AddActivity other now) = False"
| "known_kind (Update now) = True"

section \<open>Ripple\<close>

subsection \<open>Library functions\<close>

text \<open>
  \<^verbatim>\<open>random(max)\<close> and \<^verbatim>\<open>random(min, max)\<close> of p5.js scale one sample \<open>u\<close> of the
  underlying generator, which lies in \<open>[0, 1)\<close>. The generator is an input of the
  model: \<open>rnd n\<close> is its \<open>n\<close>-th sample.
\<close>

definition random1 :: "real \<Rightarrow> real \<Rightarrow> real" where
  "random1 u hi = u * hi"

definition random2 :: "real \<Rightarrow> real \<Rightarrow> real \<Rightarrow> real" where
  "random2 u lo hi = u * (hi - lo) + lo"

definition TWO_PI :: real where
  "TWO_PI = 2 * pi"

subsection \<open>Data\<close>

text \<open>The object returned by \<^verbatim>\<open>getActionParams\<close>.\<close>

record actionParams =
  p_maxRadius :: real
  p_amplitude :: real
  p_damping :: real
  p_speed :: real
  p_lifespan :: real
  p_color :: "real list"

text \<open>An element of \<^verbatim>\<open>microRipples\<close>: the keys \<^verbatim>\<open>x\<close>, \<^verbatim>\<open>y\<close>, \<^verbatim>\<open>startTime\<close>, \<^verbatim>\<open>radius\<close>.\<close>

record microRipple =
  micro_x :: real
  micro_y :: real
  micro_startTime :: real
  micro_radius :: real

record Ripple =
  x :: real
  y :: real
  actionType :: js_value
  startTime :: real
  age :: real
  maxRadius :: real
  amplitude :: real
  damping :: real
  speed :: real
  lifespan :: real
  color :: "real list"
  microRipples :: "microRipple list"

text \<open>
  Ripples are objects: \<^verbatim>\<open>update\<close> assigns to \<^verbatim>\<open>age\<close>, \<^verbatim>\<open>draw\<close> assigns to
  \<^verbatim>\<open>amplitude\<close>, and \<^verbatim>\<open>shouldDamp\<close> compares two of them with \<^verbatim>\<open>===\<close>. A ripple is
  therefore named by a reference, and the store maps each reference to the fields of
  its object. The array \<^verbatim>\<open>ripples\<close> is a list of references.
\<close>

type_synonym ref = nat

type_synonym store = "ref \<Rightarrow> Ripple"

datatype error = TypeError

subsection \<open>Construction\<close>

text \<open>
  The \<^verbatim>\<open>switch\<close> has no default: for any other value the function returns
  \<^verbatim>\<open>undefined\<close>, which is \<open>None\<close> here.
\<close>

fun getActionParams :: "js_value \<Rightarrow> actionParams option" where
  "getActionParams (ACTIONS LIKE) =
     Some \<lparr> p_maxRadius = 400, p_amplitude = 1.0, p_damping = 0.95, p_speed = 3.5,
            p_lifespan = 3000, p_color = [100, 200, 255, 180] \<rparr>"
| "getActionParams (ACTIONS DISLIKE) =
     Some \<lparr> p_maxRadius = 350, p_amplitude = 0.8, p_damping = 0.92, p_speed = 2.0,
            p_lifespan = 4000, p_color = [150, 100, 150, 160] \<rparr>"
| "getActionParams (ACTIONS POSITIVE_COMMENT) =
     Some \<lparr> p_maxRadius = 300, p_amplitude = 0.6, p_damping = 0.98, p_speed = 4.0,
            p_lifespan = 2500, p_color = [255, 220, 100, 140] \<rparr>"
| "getActionParams (ACTIONS NEGATIVE_COMMENT) =
     Some \<lparr> p_maxRadius = 250, p_amplitude = 0.4, p_damping = 0.99, p_speed = 2.5,
            p_lifespan = 3500, p_color = [50, 50, 80, 120] \<rparr>"
| "getActionParams other = None"

text \<open>
  The body of the loop of \<^verbatim>\<open>generateMicroRipples\<close> at counter \<open>i\<close>. It draws four
  samples, in the order of evaluation: angle, dist, the offset of startTime, radius.
\<close>

definition microRipple_at :: "(nat \<Rightarrow> real) \<Rightarrow> Ripple \<Rightarrow> nat \<Rightarrow> microRipple" where
  "microRipple_at rnd this i =
     (let angle = random1 (rnd (4 * i)) TWO_PI;
          dist = random2 (rnd (4 * i + 1)) 20 80
      in \<lparr> micro_x = x this + cos angle * dist,
           micro_y = y this + sin angle * dist,
           micro_startTime = startTime this + random2 (rnd (4 * i + 2)) (- 100) 100,
           micro_radius = random2 (rnd (4 * i + 3)) 30 60 \<rparr>)"

function generateMicroRipples_from :: "(nat \<Rightarrow> real) \<Rightarrow> nat \<Rightarrow> Ripple \<Rightarrow> Ripple" where
  "generateMicroRipples_from rnd i this =
     (if i < 15
      then generateMicroRipples_from rnd (Suc i)
             (this\<lparr> microRipples := microRipples this @ [microRipple_at rnd this i] \<rparr>)
      else this)"
  by pat_completeness auto
termination
  by (relation "measure (\<lambda>(rnd, i, this). 15 - i)") auto

definition generateMicroRipples :: "(nat \<Rightarrow> real) \<Rightarrow> Ripple \<Rightarrow> Ripple" where
  "generateMicroRipples rnd this = generateMicroRipples_from rnd 0 this"

text \<open>
  The constructor. When \<^verbatim>\<open>getActionParams\<close> returns \<^verbatim>\<open>undefined\<close>, reading
  \<^verbatim>\<open>params.maxRadius\<close> throws a TypeError and no object is returned.
\<close>

definition new_Ripple ::
  "(nat \<Rightarrow> real) \<Rightarrow> real \<Rightarrow> real \<Rightarrow> js_value \<Rightarrow> real \<Rightarrow> error + Ripple" where
  "new_Ripple rnd x0 y0 kind t0 =
     (case getActionParams kind of
        None \<Rightarrow> Inl TypeError
      | Some params \<Rightarrow>
          let this = \<lparr> x = x0, y = y0, actionType = kind, startTime = t0, age = 0,
                       maxRadius = p_maxRadius params,
                       amplitude = p_amplitude params,
                       damping = p_damping params,
                       speed = p_speed params,
                       lifespan = p_lifespan params,
                       color = p_color params,
                       microRipples = [] \<rparr>
          in Inr (if kind = ACTIONS POSITIVE_COMMENT
                  then generateMicroRipples rnd this else this))"

subsection \<open>Methods\<close>

text \<open>\<^verbatim>\<open>update(currentTime)\<close>: the object after the assignment, and the value returned.\<close>

definition Ripple_update :: "Ripple \<Rightarrow> real \<Rightarrow> Ripple \<times> bool" where
  "Ripple_update this currentTime =
     (let this1 = this\<lparr> age := currentTime - startTime this \<rparr>
      in (this1, age this1 < lifespan this1))"

definition getCurrentRadius :: "Ripple \<Rightarrow> real" where
  "getCurrentRadius this =
     (let progress = age this / lifespan this
      in min (progress * speed this * 50) (maxRadius this))"

text \<open>
  \<^verbatim>\<open>pow(b, e)\<close> is \<open>b powr e\<close> for a positive base, which every constructed ripple
  has in \<^verbatim>\<open>damping\<close>.
\<close>

definition getCurrentAmplitude :: "Ripple \<Rightarrow> real" where
  "getCurrentAmplitude this =
     (let progress = age this / lifespan this;
          radius = getCurrentRadius this;
          amp = amplitude this * (damping this powr (radius / 10));
          amp1 = (if actionType this = ACTIONS DISLIKE
                  then (let droop = sin (progress * pi * 2) * 0.1 in amp * (1 - droop))
                  else amp)
      in amp1 * (1 - progress * 0.7))"

text \<open>
  \<^verbatim>\<open>render()\<close>: which of the four drawing methods is called, with which radius and
  amplitude; \<open>None\<close> when nothing is drawn. What the four methods put on the canvas
  is outside the model.
\<close>

definition render :: "Ripple \<Rightarrow> (action \<times> real \<times> real) option" where
  "render this =
     (let radius = getCurrentRadius this;
          amplitude1 = getCurrentAmplitude this
      in if radius \<le> 0 \<or> amplitude1 \<le> 0 then None
         else (case actionType this of
                 ACTIONS a \<Rightarrow> Some (a, radius, amplitude1)
               | _ \<Rightarrow> None))"

definition shouldDamp :: "store \<Rightarrow> ref \<Rightarrow> ref \<Rightarrow> real \<Rightarrow> bool" where
  "shouldDamp h this otherRipple currentTime =
     (if actionType (h this) \<noteq> ACTIONS NEGATIVE_COMMENT then False
      else if otherRipple = this then False
      else
        let dx = x (h this) - x (h otherRipple);
            dy = y (h this) - y (h otherRipple);
            distance = sqrt (dx * dx + dy * dy);
            absorptionRadius = getCurrentRadius (h this) * 1.5
        in distance < absorptionRadius)"

subsection \<open>The ripple pass of draw\<close>

text \<open>
  A call of \<^verbatim>\<open>render\<close> in a frame: the object it is called on and the fields the
  object has during the call.
\<close>

type_synonym render_call = "ref \<times> Ripple"

text \<open>
  The callback of \<^verbatim>\<open>ripples.filter\<close> on one element. The inner loop runs over the
  global \<^verbatim>\<open>ripples\<close>, which is the array being filtered: the assignment to the
  global happens when \<^verbatim>\<open>filter\<close> has returned.
\<close>

definition draw_callback ::
  "ref list \<Rightarrow> real \<Rightarrow> store \<Rightarrow> ref \<Rightarrow> store \<times> render_call list \<times> bool" where
  "draw_callback ripples currentTime h ripple =
     (let (this1, alive) = Ripple_update (h ripple) currentTime;
          h1 = h(ripple := this1)
      in if alive then
           if \<not> list_ex (\<lambda>other. shouldDamp h1 other ripple currentTime) ripples
           then (h1, [(ripple, h1 ripple)], True)
           else
             let oldAmp = amplitude (h1 ripple);
                 h2 = h1(ripple := (h1 ripple)\<lparr> amplitude := amplitude (h1 ripple) * 0.3 \<rparr>);
                 call = (ripple, h2 ripple);
                 h3 = h2(ripple := (h2 ripple)\<lparr> amplitude := oldAmp \<rparr>)
             in (h3, [call], True)
         else (h1, [], False))"

fun filter_loop ::
  "ref list \<Rightarrow> real \<Rightarrow> ref list \<Rightarrow> store \<Rightarrow> store \<times> ref list \<times> render_call list" where
  "filter_loop ripples currentTime [] h = (h, [], [])"
| "filter_loop ripples currentTime (ripple # rest) h =
     (let (h1, calls, alive) = draw_callback ripples currentTime h ripple;
          (h2, kept, calls1) = filter_loop ripples currentTime rest h1
      in (h2, (if alive then ripple # kept else kept), calls @ calls1))"

text \<open>
  \<^verbatim>\<open>ripples = ripples.filter(...)\<close>: the store after the frame, the new array and
  the calls of \<^verbatim>\<open>render\<close> in their order.
\<close>

definition draw_ripples ::
  "ref list \<Rightarrow> real \<Rightarrow> store \<Rightarrow> store \<times> ref list \<times> render_call list" where
  "draw_ripples ripples currentTime h = filter_loop ripples currentTime ripples h"

subsection \<open>The ripple pass, element by element\<close>

text \<open>
  The effect of \<^verbatim>\<open>ripple.update(now)\<close> on the store, and the store after the
  callbacks of the references \<open>rs\<close>.
\<close>

definition set_age :: "real \<Rightarrow> store \<Rightarrow> ref \<Rightarrow> store" where
  "set_age now h r = h(r := (h r)\<lparr> age := now - startTime (h r) \<rparr>)"

definition age_all :: "real \<Rightarrow> ref list \<Rightarrow> store \<Rightarrow> store" where
  "age_all now rs h = foldl (set_age now) h rs"

text \<open>
  The calls of \<^verbatim>\<open>render\<close> that the callback makes for \<open>ripple\<close>, in terms of the
  store \<open>h1\<close> that holds when its own age has been set: none when it has expired,
  else one, on the object with \<^verbatim>\<open>amplitude\<close> multiplied by 0.3 when some element
  of the whole array \<open>ripples\<close> damps it, and on the object as stored otherwise.
\<close>

definition call_in :: "ref list \<Rightarrow> real \<Rightarrow> store \<Rightarrow> ref \<Rightarrow> render_call list" where
  "call_in ripples now h1 ripple =
     (if age (h1 ripple) < lifespan (h1 ripple)
      then [(ripple,
             if list_ex (\<lambda>other. shouldDamp h1 other ripple now) ripples
             then (h1 ripple)\<lparr> amplitude := amplitude (h1 ripple) * 0.3 \<rparr>
             else h1 ripple)]
      else [])"

text \<open>
  The calls of a frame: element \<open>i\<close> is handled in the store in which the elements
  up to and including \<open>i\<close> have the age of this frame and the elements after \<open>i\<close>
  still have the age the previous frame gave them.
\<close>

definition frame_calls :: "ref list \<Rightarrow> real \<Rightarrow> store \<Rightarrow> render_call list" where
  "frame_calls ripples now h =
     concat (map (\<lambda>i. call_in ripples now (age_all now (take (Suc i) ripples) h) (ripples ! i))
                 [0..<length ripples])"

text \<open>
  The condition in the words of the specification, for comparison: some ripple among
  the survivors of the frame damps \<open>ripple\<close>.
\<close>

definition damped_by_survivor :: "ref list \<Rightarrow> store \<Rightarrow> real \<Rightarrow> ref \<Rightarrow> bool" where
  "damped_by_survivor survivors h now ripple =
     list_ex (\<lambda>other. shouldDamp h other ripple now) survivors"


section \<open>Predicates used in the properties\<close>

text \<open>
  The fields \<^verbatim>\<open>overloadThreshold\<close>, \<^verbatim>\<open>decayRate\<close> and \<^verbatim>\<open>weights\<close> are assigned
  by the constructor and by no other code.
\<close>

definition constants_ok :: "ActivityManager \<Rightarrow> bool" where
  "constants_ok s =
     (overloadThreshold s = 1 \<and> decayRate s = 0.001 \<and>
      weights s = weights new_ActivityManager)"

definition meter_ok :: "ActivityManager \<Rightarrow> bool" where
  "meter_ok s = (case meter s of Num m \<Rightarrow> 0 \<le> m \<and> m \<le> 1.5 | NaN \<Rightarrow> False)"

section \<open>Concrete runs\<close>

text \<open>Nine presses of the Like button at clock reading 5.\<close>

definition ex_nine_likes :: "(js_value \<times> real) list" where
  "ex_nine_likes = replicate 9 (ACTIONS LIKE, 5)"

text \<open>Frames and a press during the blackout that follows them.\<close>

definition ex_overload_events :: "event list" where
  "ex_overload_events = [Update 1000, AddActivity (ACTIONS DISLIKE) 2000, Update 7005]"

text \<open>
  The nine presses, the frame that ends the blackout and a frame one second into the
  recovery.
\<close>

definition ex_recovering :: "event list" where
  "ex_recovering = add_calls ex_nine_likes @ [Update 7006, Update 8006]"

text \<open>
  Nine presses, then three times: the frame that ends the blackout and one press
  during the recovery; then the frame that ends the fourth blackout.
\<close>

definition ex_escalation :: "event list" where
  "ex_escalation =
     replicate 9 (AddActivity (ACTIONS LIKE) 0) @
     [Update 7001, AddActivity (ACTIONS LIKE) 7002,
      Update 14003, AddActivity (ACTIONS LIKE) 14004,
      Update 21005, AddActivity (ACTIONS LIKE) 21006,
      Update 28007]"

text \<open>
  A generator whose every sample is one half, a Like ripple and a Silence ripple as
  the constructor builds them, and a store with the Silence ripple at the origin, at
  age 2800, and Like ripples at distances 100 and 150 from it.
\<close>

definition ex_rnd :: "nat \<Rightarrow> real" where
  "ex_rnd n = 1 / 2"

definition ex_like :: Ripple where
  "ex_like = \<lparr> x = 1200, y = 400, actionType = ACTIONS LIKE, startTime = 0, age = 0,
           maxRadius = 400, amplitude = 1.0, damping = 0.95, speed = 3.5, lifespan = 3000,
           color = [100, 200, 255, 180], microRipples = [] \<rparr>"

definition ex_silence :: Ripple where
  "ex_silence = \<lparr> x = 0, y = 0, actionType = ACTIONS NEGATIVE_COMMENT, startTime = 0, age = 0,
           maxRadius = 250, amplitude = 0.4, damping = 0.99, speed = 2.5, lifespan = 3500,
           color = [50, 50, 80, 120], microRipples = [] \<rparr>"

definition ex_store :: store where
  "ex_store = (\<lambda>r. ex_like)
     (0 := ex_silence\<lparr> age := 2800 \<rparr>,
      1 := ex_like\<lparr> x := 60, y := 80 \<rparr>,
      2 := ex_like\<lparr> x := 90, y := 120 \<rparr>)"

text \<open>
  A field of two ripples after a frame at clock 3400: a Silence ripple at the origin
  started at 0, and a Like ripple at distance 100 from it started at 1000.
\<close>

definition ex_tick_store :: store where
  "ex_tick_store = (\<lambda>r. ex_like)
     (0 := ex_silence\<lparr> age := 3400 \<rparr>,
      1 := ex_like\<lparr> x := 60, y := 80, startTime := 1000, age := 2400 \<rparr>)"


section \<open>Properties of the ActivityManager\<close>

lemma weights_new:
  "weights new_ActivityManager k = (if k = ''[object Object]'' then Some 0.12 else None)"
  by (simp add: new_ActivityManager_def)

lemma object_key_not_inherited: "''[object Object]'' \<notin> set Object_prototype_keys"
  by (simp add: Object_prototype_keys_def)

lemma constants_ok_new: "constants_ok new_ActivityManager"
  by (simp add: constants_ok_def new_ActivityManager_def)

lemma weight_of_constants:
  assumes "constants_ok s"
  shows "weight_of s k =
     (if toPropertyKey k = ''[object Object]'' then Weight 0.12
      else if toPropertyKey k \<in> set Object_prototype_keys then Inherited
      else Weight 0.15)"
  using assms by (simp add: weight_of_def constants_ok_def weights_new Let_def)

lemma weight_of_ACTIONS:
  "constants_ok s \<Longrightarrow> weight_of s (ACTIONS a) = Weight 0.12"
  by (simp add: weight_of_constants)

lemma constants_ok_addActivity: "constants_ok s \<Longrightarrow> constants_ok (addActivity s k now)"
  by (simp add: constants_ok_def addActivity_def triggerOverload_def Let_def)

lemma constants_ok_update: "constants_ok s \<Longrightarrow> constants_ok (update s now)"
  by (simp add: constants_ok_def update_def update_decay_def update_overload_def
      update_recover_def Let_def)

lemma constants_ok_step: "constants_ok s \<Longrightarrow> constants_ok (step s e)"
  by (cases e) (simp_all add: constants_ok_addActivity constants_ok_update)

lemma constants_ok_foldl: "constants_ok s \<Longrightarrow> constants_ok (foldl step s es)"
  by (induction es arbitrary: s) (simp_all add: constants_ok_step)

lemma run_constants: "constants_ok (run es)"
  unfolding run_def by (rule constants_ok_foldl) (rule constants_ok_new)

lemma meter_addActivity:
  "meter (addActivity s k now) =
     (if state s = OVERLOAD then meter s else min_sum (meter s) (weight_of s k) 1.5)"
  by (simp add: addActivity_def triggerOverload_def Let_def)

lemma meter_update_cases:
  "meter (update s now) = meter s \<or>
   meter (update s now) = max_diff 0 (meter s) (decayRate s) \<or>
   meter (update s now) = Num 0.3"
  by (simp add: update_def update_decay_def update_overload_def
      update_recover_def Let_def)

lemma meter_ok_Num: "meter_ok s \<longleftrightarrow> (\<exists>m. meter s = Num m \<and> 0 \<le> m \<and> m \<le> 1.5)"
  by (cases "meter s") (simp_all add: meter_ok_def)

lemma meter_ok_addActivity:
  assumes "constants_ok s" "meter_ok s"
  shows "meter_ok (addActivity s (ACTIONS a) now)"
proof -
  obtain m where m: "meter s = Num m" "0 \<le> m" "m \<le> 1.5"
    using assms(2) unfolding meter_ok_Num by blast
  have w: "weight_of s (ACTIONS a) = Weight 0.12" using assms(1) by (rule weight_of_ACTIONS)
  have "0 \<le> min (m + 0.12) 1.5 \<and> min (m + 0.12) 1.5 \<le> 1.5"
    using m(2) by (simp add: min_def)
  then show ?thesis
    unfolding meter_ok_Num meter_addActivity w using m by simp
qed

lemma meter_ok_update:
  assumes "constants_ok s" "meter_ok s"
  shows "meter_ok (update s now)"
proof -
  obtain m where m: "meter s = Num m" "0 \<le> m" "m \<le> 1.5"
    using assms(2) unfolding meter_ok_Num by blast
  have d: "decayRate s = 0.001" using assms(1) by (simp add: constants_ok_def)
  have a: "0 \<le> max 0 (m - decayRate s) \<and> max 0 (m - decayRate s) \<le> 1.5"
    using m d by (simp add: max_def)
  have b: "(0::real) \<le> 0.3 \<and> (0.3::real) \<le> 1.5" by simp
  consider "meter (update s now) = Num m"
    | "meter (update s now) = Num (max 0 (m - decayRate s))"
    | "meter (update s now) = Num 0.3"
    using meter_update_cases[of s now] m(1) by auto
  then show ?thesis
  proof cases
    case 1
    then show ?thesis unfolding meter_ok_Num using m by blast
  next
    case 2
    then show ?thesis unfolding meter_ok_Num using a by blast
  next
    case 3
    then show ?thesis unfolding meter_ok_Num using b by blast
  qed
qed

lemma meter_ok_foldl:
  "constants_ok s \<Longrightarrow> meter_ok s \<Longrightarrow> list_all known_kind es \<Longrightarrow> meter_ok (foldl step s es)"
proof (induction es arbitrary: s)
  case Nil
  then show ?case by simp
next
  case (Cons e es)
  have c: "constants_ok (step s e)" using Cons.prems(1) by (rule constants_ok_step)
  have k: "known_kind e" "list_all known_kind es" using Cons.prems(3) by simp_all
  have "meter_ok (step s e)"
  proof (cases e)
    case (AddActivity kind t)
    then obtain a where "kind = ACTIONS a" using k(1) by (cases kind) simp_all
    then show ?thesis using AddActivity Cons.prems(1,2) by (simp add: meter_ok_addActivity)
  next
    case (Update t)
    then show ?thesis using Cons.prems(1,2) by (simp add: meter_ok_update)
  qed
  from Cons.IH[OF c this k(2)] show ?case by simp
qed

lemma run_meter_ok: "list_all known_kind es \<Longrightarrow> meter_ok (run es)"
  unfolding run_def
  by (rule meter_ok_foldl) (simp_all add: constants_ok_new, simp add: meter_ok_def new_ActivityManager_def)

lemmas am_eval = run_def addActivity_def weight_of_def weights_new triggerOverload_def Let_def
  update_def update_decay_def update_overload_def update_recover_def map_p5_def
  Object_prototype_keys_def

lemma new_fields [simp]:
  "meter new_ActivityManager = Num 0" "state new_ActivityManager = CALM"
  "overloadThreshold new_ActivityManager = 1" "decayRate new_ActivityManager = 0.001"
  "overloadStartTime new_ActivityManager = 0" "recoverStartTime new_ActivityManager = 0"
  "blackoutAlpha new_ActivityManager = 0"
  by (simp_all add: new_ActivityManager_def)

lemma run_snoc: "run (es @ [e]) = step (run es) e"
  by (simp add: run_def)

lemma run_append: "run (es @ es') = foldl step (run es) es'"
  by (simp add: run_def)

lemma add_calls_snoc: "add_calls (kts @ [(k, t)]) = add_calls kts @ [AddActivity k t]"
  by (simp add: add_calls_def)

lemma addActivity_Overload: "state s = OVERLOAD \<Longrightarrow> addActivity s k now = s"
  by (simp add: addActivity_def)

lemma addActivity_unfold:
  assumes "state s \<noteq> OVERLOAD" "m = min_sum (meter s) (weight_of s k) 1.5"
  shows "addActivity s k now =
     (if num_ge m (overloadThreshold s)
      then (if num_gt m 0.3 \<and> state s = CALM
            then s\<lparr> meter := m, state := OVERLOAD, overloadStartTime := now, blackoutAlpha := 0 \<rparr>
            else s\<lparr> meter := m, state := OVERLOAD, overloadStartTime := now, blackoutAlpha := 0 \<rparr>)
      else (if num_gt m 0.3 \<and> state s = CALM
            then s\<lparr> meter := m, state := ACTIVE \<rparr>
            else s\<lparr> meter := m \<rparr>))"
  unfolding addActivity_def Let_def assms(2)[symmetric] triggerOverload_def
  using assms(1) by simp

lemma addActivity_triggers:
  assumes "state s \<noteq> OVERLOAD" "num_ge (meter (addActivity s k now)) (overloadThreshold s)"
  shows "state (addActivity s k now) = OVERLOAD \<and> overloadStartTime (addActivity s k now) = now
     \<and> blackoutAlpha (addActivity s k now) = 0"
proof -
  define m where "m = min_sum (meter s) (weight_of s k) 1.5"
  have "meter (addActivity s k now) = m"
    using assms(1) by (simp add: meter_addActivity m_def)
  then have "num_ge m (overloadThreshold s)" using assms(2) by simp
  then show ?thesis
    unfolding addActivity_unfold[OF assms(1) m_def] by simp
qed

lemma addActivity_below:
  assumes "state s \<noteq> OVERLOAD" "\<not> num_ge (meter (addActivity s k now)) (overloadThreshold s)"
  shows "state (addActivity s k now) \<noteq> OVERLOAD \<and>
     (state s \<noteq> RECOVER \<longrightarrow> state (addActivity s k now) \<noteq> RECOVER) \<and>
     blackoutAlpha (addActivity s k now) = blackoutAlpha s"
proof -
  define m where "m = min_sum (meter s) (weight_of s k) 1.5"
  have "meter (addActivity s k now) = m"
    using assms(1) by (simp add: meter_addActivity m_def)
  then have "\<not> num_ge m (overloadThreshold s)" using assms(2) by simp
  then show ?thesis
    unfolding addActivity_unfold[OF assms(1) m_def] using assms(1) by simp
qed

lemma add_calls_inv:
  "state (run (add_calls kts)) \<noteq> RECOVER \<and>
   (num_ge (meter (run (add_calls kts))) 1 \<longrightarrow> state (run (add_calls kts)) = OVERLOAD) \<and>
   blackoutAlpha (run (add_calls kts)) = 0"
proof (induction kts rule: rev_induct)
  case Nil
  show ?case by (simp add: add_calls_def run_def)
next
  case (snoc kt kts)
  obtain k t where kt: "kt = (k, t)" by (cases kt)
  let ?s = "run (add_calls kts)"
  have c: "overloadThreshold ?s = 1"
    using run_constants[of "add_calls kts"] by (simp add: constants_ok_def)
  have nxt: "run (add_calls (kts @ [kt])) = addActivity ?s k t"
    by (simp add: kt add_calls_snoc run_snoc)
  show ?case
  proof (cases "state ?s = OVERLOAD")
    case True
    then show ?thesis unfolding nxt addActivity_Overload[OF True] using snoc.IH by blast
  next
    case False
    show ?thesis
    proof (cases "num_ge (meter (addActivity ?s k t)) 1")
      case True
      then show ?thesis
        unfolding nxt using addActivity_triggers[OF False, of k t] c by simp
    next
      case ge: False
      then show ?thesis
        unfolding nxt using addActivity_below[OF False, of k t] c snoc.IH by simp
    qed
  qed
qed

lemma min_sum_ge_Num:
  assumes "num_ge (min_sum n w cap) c"
  shows "\<exists>m. n = Num m"
  using assms by (cases n; cases w) simp_all

lemma add_calls_crossing:
  "num_ge (meter (run (add_calls kts))) 1 \<Longrightarrow>
   \<exists>pre k t0 post. kts = pre @ (k, t0) # post \<and> num_lt (meter (run (add_calls pre))) 1 \<and>
      num_ge (meter (run (add_calls (pre @ [(k, t0)])))) 1 \<and>
      overloadStartTime (run (add_calls kts)) = t0"
proof (induction kts rule: rev_induct)
  case Nil
  then show ?case by (simp add: add_calls_def run_def)
next
  case (snoc kt kts)
  obtain k t where kt: "kt = (k, t)" by (cases kt)
  let ?s = "run (add_calls kts)"
  have c: "overloadThreshold ?s = 1"
    using run_constants[of "add_calls kts"] by (simp add: constants_ok_def)
  have nxt: "run (add_calls (kts @ [kt])) = addActivity ?s k t"
    by (simp add: kt add_calls_snoc run_snoc)
  show ?case
  proof (cases "num_ge (meter ?s) 1")
    case True
    then have ov: "state ?s = OVERLOAD" using add_calls_inv[of kts] by simp
    from snoc.IH[OF True] obtain pre k0 t0 post where
      d: "kts = pre @ (k0, t0) # post" "num_lt (meter (run (add_calls pre))) 1"
         "num_ge (meter (run (add_calls (pre @ [(k0, t0)])))) 1" "overloadStartTime ?s = t0"
      by blast
    have same: "run (add_calls (kts @ [kt])) = ?s"
      unfolding nxt using ov by (rule addActivity_Overload)
    have e: "kts @ [kt] = pre @ (k0, t0) # (post @ [kt])" using d(1) by simp
    show ?thesis
      apply (rule exI[of _ pre], rule exI[of _ k0], rule exI[of _ t0], rule exI[of _ "post @ [kt]"])
      using e d(2,3,4) same by simp
  next
    case False
    have nov: "state ?s \<noteq> OVERLOAD"
    proof
      assume ov: "state ?s = OVERLOAD"
      have "run (add_calls (kts @ [kt])) = ?s"
        unfolding nxt using ov by (rule addActivity_Overload)
      then show False using snoc.prems False by simp
    qed
    have ge: "num_ge (meter (addActivity ?s k t)) 1" using snoc.prems unfolding nxt .
    have "meter (addActivity ?s k t) = min_sum (meter ?s) (weight_of ?s k) 1.5"
      using nov by (simp add: meter_addActivity)
    then obtain m where m: "meter ?s = Num m" using ge min_sum_ge_Num by metis
    have lt: "num_lt (meter ?s) 1" using False m by simp
    from addActivity_triggers[OF nov, of k t] ge c
    have f: "overloadStartTime (run (add_calls (kts @ [kt]))) = t" unfolding nxt by simp
    show ?thesis
      apply (rule exI[of _ kts], rule exI[of _ k], rule exI[of _ t], rule exI[of _ "[]"])
      using lt snoc.prems f by (simp add: kt)
  qed
qed

lemma update_in_overload:
  assumes "state s = OVERLOAD" "now - overloadStartTime s \<le> 7000"
  shows "state (update s now) = OVERLOAD \<and> overloadStartTime (update s now) = overloadStartTime s
     \<and> meter (update s now) = meter s"
  using assms by (simp add: update_def update_decay_def update_overload_def update_recover_def Let_def)

lemma overload_phase:
  "state s = OVERLOAD \<Longrightarrow> \<forall>t. Update t \<in> set es \<longrightarrow> t - overloadStartTime s \<le> 7000 \<Longrightarrow>
   state (foldl step s es) = OVERLOAD \<and> overloadStartTime (foldl step s es) = overloadStartTime s
     \<and> meter (foldl step s es) = meter s"
proof (induction es arbitrary: s)
  case Nil
  then show ?case by simp
next
  case (Cons e es)
  have st: "state (step s e) = OVERLOAD \<and> overloadStartTime (step s e) = overloadStartTime s
     \<and> meter (step s e) = meter s"
  proof (cases e)
    case (AddActivity k t)
    then show ?thesis using Cons.prems(1) by (simp add: addActivity_def)
  next
    case (Update t)
    then have "t - overloadStartTime s \<le> 7000" using Cons.prems(2) by simp
    then show ?thesis using Update update_in_overload[OF Cons.prems(1)] by simp
  qed
  have "\<forall>t. Update t \<in> set es \<longrightarrow> t - overloadStartTime (step s e) \<le> 7000"
    using Cons.prems(2) st by simp
  from Cons.IH[OF _ this] st show ?case by simp
qed

lemma update_leaves_overload:
  assumes "state s = OVERLOAD" "7000 < now - overloadStartTime s"
  shows "state (update s now) = RECOVER \<and> recoverStartTime (update s now) = now
     \<and> blackoutAlpha (update s now) = 255 \<and> meter (update s now) = meter s"
  using assms by (simp add: update_def update_decay_def update_overload_def update_recover_def Let_def map_p5_def)

lemma update_in_recover:
  assumes "state s = RECOVER" "now - recoverStartTime s < 3000"
  shows "state (update s now) = RECOVER \<and> recoverStartTime (update s now) = recoverStartTime s"
  using assms by (simp add: update_def update_decay_def update_overload_def update_recover_def Let_def)

lemma recover_phase:
  "state s = RECOVER \<Longrightarrow> \<forall>t\<in>set ts. t - recoverStartTime s < 3000 \<Longrightarrow>
   state (foldl step s (map Update ts)) = RECOVER \<and>
   recoverStartTime (foldl step s (map Update ts)) = recoverStartTime s"
proof (induction ts arbitrary: s)
  case Nil
  then show ?case by simp
next
  case (Cons t ts)
  have st: "state (update s t) = RECOVER \<and> recoverStartTime (update s t) = recoverStartTime s"
    using update_in_recover[OF Cons.prems(1), of t] Cons.prems(2) by simp
  then have "\<forall>u\<in>set ts. u - recoverStartTime (update s t) < 3000" using Cons.prems(2) by simp
  from Cons.IH[OF _ this] st show ?case by simp
qed

lemma update_leaves_recover:
  assumes "state s = RECOVER" "3000 \<le> now - recoverStartTime s"
  shows "state (update s now) = CALM \<and> meter (update s now) = Num 0.3 \<and> blackoutAlpha (update s now) = 0"
  using assms by (simp add: update_def update_decay_def update_overload_def update_recover_def Let_def)

lemma run_ex_nine_likes:
  "run (add_calls ex_nine_likes) =
     new_ActivityManager\<lparr> meter := Num 1.08, state := OVERLOAD, overloadStartTime := 5 \<rparr>"
  by (simp add: ex_nine_likes_def add_calls_def numeral_eq_Suc am_eval)

lemma run_ex_recovering:
  "run ex_recovering =
     new_ActivityManager\<lparr> meter := Num 1.08, state := RECOVER, overloadStartTime := 5,
        recoverStartTime := 7006, blackoutAlpha := 170 \<rparr>"
  by (simp add: ex_recovering_def run_append run_ex_nine_likes)
     (simp add: update_def update_decay_def update_overload_def update_recover_def map_p5_def Let_def)

lemma run_ex_escalation:
  "run ex_escalation =
     new_ActivityManager\<lparr> meter := Num 1.44, state := RECOVER, overloadStartTime := 21006,
        recoverStartTime := 28007, blackoutAlpha := 255 \<rparr>"
  by (simp add: ex_escalation_def numeral_eq_Suc am_eval)


subsection \<open>The blackout cycle\<close>

text \<open>
  Claim C1. Start from the state the constructor builds (\<open>CALM\<close>) and make any
  sequence \<open>kts\<close> of calls of \<^verbatim>\<open>addActivity\<close> after which the meter is at least 1.0.
  Then the state is \<open>OVERLOAD\<close>, \<open>blackoutAlpha\<close> is 0 and \<open>overloadStartTime\<close> is
  the clock reading of the call that raised the meter from below 1.0 to 1.0 or more.
  The entry is the same from any state \<open>s0\<close> other than \<open>OVERLOAD\<close>, whatever its
  \<open>blackoutAlpha\<close>: a call that leaves the meter at or above the threshold sets the
  state to \<open>OVERLOAD\<close>, records its clock reading in \<open>overloadStartTime\<close> and resets
  \<open>blackoutAlpha\<close> to 0. Let \<open>es1\<close> be any later calls whose frames all read the clock
  at most 7000 ms after the entry: the state is still \<open>OVERLOAD\<close>. The first frame
  \<open>t1\<close> that reads more than 7000 ms after the entry makes the state \<open>RECOVER\<close> and
  records \<open>recoverStartTime = t1\<close>. Frames \<open>ts2\<close> less than 3000 ms after \<open>t1\<close>, with
  no press between them, leave the state \<open>RECOVER\<close>, and the first frame \<open>t2\<close> at
  least 3000 ms after \<open>t1\<close> makes the state \<open>CALM\<close> with meter exactly 0.3 and
  \<open>blackoutAlpha\<close> exactly 0.
\<close>

theorem C1_blackout_cycle:
  assumes cross: "num_ge (meter (run (add_calls kts))) 1"
    and ph1: "\<forall>t. Update t \<in> set es1 \<longrightarrow> t - overloadStartTime (run (add_calls kts)) \<le> 7000"
    and t1: "7000 < t1 - overloadStartTime (run (add_calls kts))"
    and ph2: "\<forall>t\<in>set ts2. t - t1 < 3000"
    and t2: "3000 \<le> t2 - t1"
  shows "state (run (add_calls kts)) = OVERLOAD \<and> blackoutAlpha (run (add_calls kts)) = 0 \<and>
     (\<exists>pre k t0 post. kts = pre @ (k, t0) # post \<and> num_lt (meter (run (add_calls pre))) 1 \<and>
        num_ge (meter (run (add_calls (pre @ [(k, t0)])))) 1 \<and>
        overloadStartTime (run (add_calls kts)) = t0) \<and>
     (state s0 \<noteq> OVERLOAD \<and> num_ge (meter (addActivity s0 k0 now0)) (overloadThreshold s0) \<longrightarrow>
        state (addActivity s0 k0 now0) = OVERLOAD \<and>
        overloadStartTime (addActivity s0 k0 now0) = now0 \<and>
        blackoutAlpha (addActivity s0 k0 now0) = 0) \<and>
     state (run (add_calls kts @ es1)) = OVERLOAD \<and>
     state (run (add_calls kts @ es1 @ [Update t1])) = RECOVER \<and>
     recoverStartTime (run (add_calls kts @ es1 @ [Update t1])) = t1 \<and>
     state (run (add_calls kts @ es1 @ [Update t1] @ map Update ts2)) = RECOVER \<and>
     state (run (add_calls kts @ es1 @ [Update t1] @ map Update ts2 @ [Update t2])) = CALM \<and>
     meter (run (add_calls kts @ es1 @ [Update t1] @ map Update ts2 @ [Update t2])) = Num 0.3 \<and>
     blackoutAlpha (run (add_calls kts @ es1 @ [Update t1] @ map Update ts2 @ [Update t2])) = 0"
proof -
  let ?s1 = "run (add_calls kts)"
  let ?s2 = "run (add_calls kts @ es1)"
  let ?s3 = "run (add_calls kts @ es1 @ [Update t1])"
  let ?s4 = "run (add_calls kts @ es1 @ [Update t1] @ map Update ts2)"
  let ?s5 = "run (add_calls kts @ es1 @ [Update t1] @ map Update ts2 @ [Update t2])"
  have a: "state ?s1 = OVERLOAD" "blackoutAlpha ?s1 = 0"
    using add_calls_inv[of kts] cross by simp_all
  have b: "\<exists>pre k t0 post. kts = pre @ (k, t0) # post \<and> num_lt (meter (run (add_calls pre))) 1 \<and>
        num_ge (meter (run (add_calls (pre @ [(k, t0)])))) 1 \<and>
        overloadStartTime (run (add_calls kts)) = t0"
    using add_calls_crossing[OF cross] .
  have en: "state s0 \<noteq> OVERLOAD \<and> num_ge (meter (addActivity s0 k0 now0)) (overloadThreshold s0) \<longrightarrow>
        state (addActivity s0 k0 now0) = OVERLOAD \<and>
        overloadStartTime (addActivity s0 k0 now0) = now0 \<and>
        blackoutAlpha (addActivity s0 k0 now0) = 0"
    using addActivity_triggers[of s0 k0 now0] by blast
  have s2: "?s2 = foldl step ?s1 es1" by (simp add: run_append)
  have c: "state ?s2 = OVERLOAD" "overloadStartTime ?s2 = overloadStartTime ?s1"
    using overload_phase[OF a(1) ph1] s2 by simp_all
  have s3: "?s3 = update ?s2 t1" by (simp add: run_def)
  have d: "state ?s3 = RECOVER" "recoverStartTime ?s3 = t1"
    using update_leaves_overload[of ?s2 t1] c t1 s3 by simp_all
  have s4: "?s4 = foldl step ?s3 (map Update ts2)" by (simp add: run_def)
  have e: "state ?s4 = RECOVER" "recoverStartTime ?s4 = t1"
    using recover_phase[of ?s3 ts2] d ph2 s4 by simp_all
  have s5: "?s5 = update ?s4 t2" by (simp add: run_def)
  have f: "state ?s5 = CALM" "meter ?s5 = Num 0.3" "blackoutAlpha ?s5 = 0"
    using update_leaves_recover[of ?s4 t2] e t2 s5 by simp_all
  show ?thesis using a b en c(1) d e(1) f by blast
qed

text \<open>
  The cycle on a concrete run: nine presses, frames, and the two transitions; and the
  entry from a recovery in which \<open>blackoutAlpha\<close> is 170.
\<close>

theorem C1_blackout_cycle_witness:
  "num_ge (meter (run (add_calls ex_nine_likes))) 1 \<and>
   overloadStartTime (run (add_calls ex_nine_likes)) = 5 \<and>
   (1000::real) - 5 \<le> 7000 \<and> (7005::real) - 5 \<le> 7000 \<and>
   (7000::real) < 7006 - 5 \<and>
   (8000::real) - 7006 < 3000 \<and> (10005::real) - 7006 < 3000 \<and>
   (3000::real) \<le> 10006 - 7006 \<and>
   state (run ex_recovering) = RECOVER \<and> blackoutAlpha (run ex_recovering) = 170 \<and>
   num_ge (meter (addActivity (run ex_recovering) (ACTIONS LIKE) 8500))
     (overloadThreshold (run ex_recovering)) \<and>
   state (addActivity (run ex_recovering) (ACTIONS LIKE) 8500) = OVERLOAD \<and>
   overloadStartTime (addActivity (run ex_recovering) (ACTIONS LIKE) 8500) = 8500 \<and>
   blackoutAlpha (addActivity (run ex_recovering) (ACTIONS LIKE) 8500) = 0 \<and>
   state (run (add_calls ex_nine_likes)) = OVERLOAD \<and>
   state (run (add_calls ex_nine_likes @ ex_overload_events @ [Update 7006])) = RECOVER \<and>
   state (run (add_calls ex_nine_likes @ ex_overload_events @ [Update 7006] @
               map Update [8000, 10005] @ [Update 10006])) = CALM \<and>
   meter (run (add_calls ex_nine_likes @ ex_overload_events @ [Update 7006] @
               map Update [8000, 10005] @ [Update 10006])) = Num 0.3"
proof -
  have h1: "num_ge (meter (run (add_calls ex_nine_likes))) 1"
    by (simp add: run_ex_nine_likes)
  have h2: "\<forall>t. Update t \<in> set ex_overload_events \<longrightarrow>
        t - overloadStartTime (run (add_calls ex_nine_likes)) \<le> 7000"
    by (simp add: run_ex_nine_likes ex_overload_events_def)
  have h3: "7000 < 7006 - overloadStartTime (run (add_calls ex_nine_likes))"
    by (simp add: run_ex_nine_likes)
  have h4: "\<forall>t\<in>set [8000, 10005]. t - 7006 < (3000::real)" by simp
  have h5: "(3000::real) \<le> 10006 - 7006" by simp
  have h6: "overloadStartTime (run (add_calls ex_nine_likes)) = 5"
    by (simp add: run_ex_nine_likes)
  have h7: "(1000::real) - 5 \<le> 7000 \<and> (7005::real) - 5 \<le> 7000 \<and> (7000::real) < 7006 - 5 \<and>
    (8000::real) - 7006 < 3000 \<and> (10005::real) - 7006 < 3000" by simp
  have r: "state (run ex_recovering) = RECOVER" "blackoutAlpha (run ex_recovering) = 170"
    "state (run ex_recovering) \<noteq> OVERLOAD"
    by (simp_all add: run_ex_recovering)
  have g: "num_ge (meter (addActivity (run ex_recovering) (ACTIONS LIKE) 8500))
     (overloadThreshold (run ex_recovering))"
    by (simp add: run_ex_recovering meter_addActivity weight_of_def weights_new Let_def)
  from C1_blackout_cycle[OF h1 h2 h3 h4 h5, of "run ex_recovering" "ACTIONS LIKE" 8500]
    h1 h5 h6 h7 r g
  show ?thesis by blast
qed

subsection \<open>The meter stays in range\<close>

text \<open>
  Claim C2. In every state reached from the constructed state by calls of
  \<^verbatim>\<open>addActivity\<close>, each with one of the four kinds, and calls of \<^verbatim>\<open>update\<close>, in any
  order and with any clock readings, the meter is a number in \<open>[0, 1.5]\<close>; and a call
  of \<^verbatim>\<open>addActivity\<close> in a state with \<open>state = OVERLOAD\<close>, with any value as kind,
  returns the state with every field unchanged.
\<close>

theorem C2_meter_bounds:
  assumes "list_all known_kind es"
  shows "(\<exists>m. meter (run es) = Num m \<and> 0 \<le> m \<and> m \<le> 1.5) \<and>
     (\<forall>s k now. state s = OVERLOAD \<longrightarrow> addActivity s k now = s)"
  using run_meter_ok[OF assms] by (simp add: meter_ok_Num addActivity_def)

theorem C2_meter_bounds_witness:
  "list_all known_kind (add_calls ex_nine_likes) \<and>
   state (run (add_calls ex_nine_likes)) = OVERLOAD \<and>
   meter (run (add_calls ex_nine_likes)) = Num 1.08 \<and>
   (\<exists>m. meter (run (add_calls ex_nine_likes)) = Num m \<and> 0 \<le> m \<and> m \<le> 1.5) \<and>
   addActivity (run (add_calls ex_nine_likes)) (ACTIONS DISLIKE) 6000 = run (add_calls ex_nine_likes)"
proof -
  have k: "list_all known_kind (add_calls ex_nine_likes)"
    by (simp add: ex_nine_likes_def add_calls_def list_all_iff)
  have h: "state (run (add_calls ex_nine_likes)) = OVERLOAD"
    "meter (run (add_calls ex_nine_likes)) = Num 1.08"
    by (simp_all add: run_ex_nine_likes)
  from C2_meter_bounds[OF k] k h show ?thesis by blast
qed

subsection \<open>The weight of a call\<close>

text \<open>
  Claim C3, evaluated on the code. Four calls of \<^verbatim>\<open>addActivity\<close> with the same one of
  the four kinds, from the constructed state and with no frame between them, leave
  \<open>state = ACTIVE\<close> and the meter at 0.48: each call adds 0.12, for
  \<open>POSITIVE_COMMENT\<close> (0.20 in the table) as for every other kind. The meter is
  not near 0.80.
\<close>

theorem C3_four_calls:
  "state (run [AddActivity (ACTIONS a) t1, AddActivity (ACTIONS a) t2,
               AddActivity (ACTIONS a) t3, AddActivity (ACTIONS a) t4]) = ACTIVE \<and>
   meter (run [AddActivity (ACTIONS a) t1, AddActivity (ACTIONS a) t2,
               AddActivity (ACTIONS a) t3, AddActivity (ACTIONS a) t4]) = Num 0.48"
  by (simp add: am_eval)

text \<open>
  Claim C4, as amended. In every reachable state other than \<open>OVERLOAD\<close>, the lookup
  \<^verbatim>\<open>this.weights[actionType]\<close> gives 0.12 for each of the four kinds, the call sets
  the meter to \<open>min (meter + 0.12) 1.5\<close>, which is an increase of exactly 0.12 when
  the meter is at most 1.38, and the state after the call is the same for any two
  kinds.
\<close>

theorem C4_increment_independent_of_kind:
  assumes "state (run es) \<noteq> OVERLOAD"
  shows "weight_of (run es) (ACTIONS a) = Weight 0.12 \<and>
     meter (addActivity (run es) (ACTIONS a) now) = min_sum (meter (run es)) (Weight 0.12) 1.5 \<and>
     (meter (run es) = Num m \<longrightarrow>
        meter (addActivity (run es) (ACTIONS a) now) = Num (min (m + 0.12) 1.5)) \<and>
     (meter (run es) = Num m \<and> m \<le> 1.38 \<longrightarrow>
        meter (addActivity (run es) (ACTIONS a) now) = Num (m + 0.12)) \<and>
     addActivity (run es) (ACTIONS a) now = addActivity (run es) (ACTIONS b) now"
proof -
  have c: "constants_ok (run es)" by (rule run_constants)
  have w: "weight_of (run es) (ACTIONS a) = Weight 0.12"
    "weight_of (run es) (ACTIONS b) = Weight 0.12"
    using c by (simp_all add: weight_of_ACTIONS)
  have m: "meter (addActivity (run es) (ACTIONS a) now) =
      min_sum (meter (run es)) (Weight 0.12) 1.5"
    using assms w by (simp add: meter_addActivity)
  have n: "meter (run es) = Num m \<Longrightarrow>
      meter (addActivity (run es) (ACTIONS a) now) = Num (min (m + 0.12) 1.5)"
    unfolding m by simp
  have i: "m \<le> 1.38 \<Longrightarrow> min (m + 0.12) 1.5 = m + 0.12"
    by (simp add: min_def)
  have e: "addActivity (run es) (ACTIONS a) now = addActivity (run es) (ACTIONS b) now"
    by (simp add: addActivity_def w)
  show ?thesis using w(1) m n i e by simp
qed

theorem C4_increment_independent_of_kind_witness:
  "state (run [AddActivity (ACTIONS POSITIVE_COMMENT) 10]) \<noteq> OVERLOAD \<and>
   meter (run [AddActivity (ACTIONS POSITIVE_COMMENT) 10]) = Num 0.12 \<and>
   (0.12::real) \<le> 1.38 \<and>
   meter (addActivity (run [AddActivity (ACTIONS POSITIVE_COMMENT) 10]) (ACTIONS DISLIKE) 20)
     = Num (0.12 + 0.12) \<and>
   addActivity (run [AddActivity (ACTIONS POSITIVE_COMMENT) 10]) (ACTIONS DISLIKE) 20 =
   addActivity (run [AddActivity (ACTIONS POSITIVE_COMMENT) 10]) (ACTIONS LIKE) 20"
proof -
  let ?s = "run [AddActivity (ACTIONS POSITIVE_COMMENT) 10]"
  have r: "?s = new_ActivityManager\<lparr> meter := Num 0.12 \<rparr>"
    by (simp add: am_eval)
  have h: "state ?s \<noteq> OVERLOAD" by (simp add: r)
  have m: "meter ?s = Num 0.12" by (simp add: r)
  have l: "(0.12::real) \<le> 1.38" by simp
  from C4_increment_independent_of_kind[OF h, of DISLIKE 20 "0.12" LIKE] m l
  have "meter (addActivity ?s (ACTIONS DISLIKE) 20) = Num (0.12 + 0.12)"
    and e: "addActivity ?s (ACTIONS DISLIKE) 20 = addActivity ?s (ACTIONS LIKE) 20"
    by blast+
  with h m l show ?thesis by blast
qed

text \<open>
  The increase is not 0.12 in every state other than \<open>OVERLOAD\<close>. A press during
  each of three recoveries takes the meter from 1.08 to 1.44; the state is then
  \<open>RECOVER\<close>, and the next call raises the meter by 0.06 to the ceiling 1.5.
\<close>

theorem C4_counterexample:
  "state (run ex_escalation) = RECOVER \<and> meter (run ex_escalation) = Num 1.44 \<and>
   meter (addActivity (run ex_escalation) (ACTIONS LIKE) 28008) = Num 1.5 \<and>
   meter (addActivity (run ex_escalation) (ACTIONS LIKE) 28008) \<noteq> Num (1.44 + 0.12)"
  by (simp add: run_ex_escalation addActivity_def weight_of_def weights_new triggerOverload_def Let_def)

subsection \<open>Values that are none of the four kinds\<close>

text \<open>
  Claim C5, as amended. For a value \<open>k\<close> that is none of the four objects of
  \<^verbatim>\<open>ACTIONS\<close>, \<^verbatim>\<open>getActionParams\<close> returns no profile and the constructor of
  \<^verbatim>\<open>Ripple\<close> throws a TypeError, so no ripple is built with a default profile.
  \<^verbatim>\<open>addActivity\<close> does not reject \<open>k\<close>: when the table of weights has no property
  under the key of \<open>k\<close>, neither its own nor an inherited one, the weight is the
  default 0.15 of the source, and in a reachable state other than \<open>OVERLOAD\<close> with a
  meter \<open>m\<close> the call sets the meter to \<open>min (m + 0.15) 1.5\<close>.
\<close>

theorem C5_unrecognized_kind:
  assumes "\<forall>a. k \<noteq> ACTIONS a"
  shows "getActionParams k = None \<and>
     new_Ripple rnd x0 y0 k t0 = Inl TypeError \<and>
     (weights (run es) (toPropertyKey k) = None \<and>
      toPropertyKey k \<notin> set Object_prototype_keys \<longrightarrow>
        weight_of (run es) k = Weight 0.15) \<and>
     (weights (run es) (toPropertyKey k) = None \<and>
      toPropertyKey k \<notin> set Object_prototype_keys \<and>
      state (run es) \<noteq> OVERLOAD \<and> meter (run es) = Num m \<longrightarrow>
        meter (addActivity (run es) k now) = Num (min (m + 0.15) 1.5))"
proof -
  have g: "getActionParams k = None" using assms by (cases k) simp_all
  have n: "new_Ripple rnd x0 y0 k t0 = Inl TypeError" by (simp add: new_Ripple_def g)
  have w: "weight_of (run es) k = Weight 0.15"
    if "weights (run es) (toPropertyKey k) = None" "toPropertyKey k \<notin> set Object_prototype_keys"
    using that by (simp add: weight_of_def Let_def)
  have "meter (addActivity (run es) k now) = Num (min (m + 0.15) 1.5)"
    if "weights (run es) (toPropertyKey k) = None" "toPropertyKey k \<notin> set Object_prototype_keys"
      "state (run es) \<noteq> OVERLOAD" "meter (run es) = Num m"
    using that w by (simp add: meter_addActivity)
  with g n w show ?thesis by blast
qed

theorem C5_unrecognized_kind_witness:
  "(\<forall>a. String ''SHARE'' \<noteq> ACTIONS a) \<and>
   weights (run []) (toPropertyKey (String ''SHARE'')) = None \<and>
   toPropertyKey (String ''SHARE'') \<notin> set Object_prototype_keys \<and>
   state (run []) \<noteq> OVERLOAD \<and> meter (run []) = Num 0 \<and>
   getActionParams (String ''SHARE'') = None \<and>
   new_Ripple ex_rnd 960 440 (String ''SHARE'') 0 = Inl TypeError \<and>
   weight_of (run []) (String ''SHARE'') = Weight 0.15 \<and>
   meter (addActivity (run []) (String ''SHARE'') 0) = Num (min (0 + 0.15) 1.5)"
proof -
  have h: "\<forall>a. String ''SHARE'' \<noteq> ACTIONS a" by simp
  have a: "weights (run []) (toPropertyKey (String ''SHARE'')) = None"
    by (simp add: run_def weights_new)
  have b: "toPropertyKey (String ''SHARE'') \<notin> set Object_prototype_keys"
    by (simp add: Object_prototype_keys_def)
  have s: "state (run []) \<noteq> OVERLOAD" "meter (run []) = Num 0" by (simp_all add: run_def)
  from C5_unrecognized_kind[OF h, of ex_rnd 960 440 0 "[]" 0 0] h a b s
  show ?thesis by blast
qed

text \<open>
  \<^verbatim>\<open>addActivity\<close> with a kind it does not know changes the meter: from 0 to the
  default weight 0.15, for a string as for \<^verbatim>\<open>undefined\<close>.
\<close>

theorem C5_counterexample:
  "meter new_ActivityManager = Num 0 \<and>
   meter (addActivity new_ActivityManager (String ''SHARE'') 0) = Num 0.15 \<and>
   meter (addActivity new_ActivityManager Undefined 0) = Num 0.15"
  by (simp add: addActivity_def weight_of_def weights_new triggerOverload_def Let_def
      Object_prototype_keys_def)

section \<open>Properties of Ripple\<close>

text \<open>The equation of the loop is used by hand, and is no rewrite rule.\<close>

declare generateMicroRipples_from.simps [simp del]

lemma microRipple_at_microRipples [simp]:
  "microRipple_at rnd (this\<lparr>microRipples := ms\<rparr>) i = microRipple_at rnd this i"
  by (simp add: microRipple_at_def)

lemma generateMicroRipples_from_eq:
  "generateMicroRipples_from rnd i this =
     this\<lparr> microRipples := microRipples this @ map (microRipple_at rnd this) [i..<15] \<rparr>"
proof (induction rnd i this rule: generateMicroRipples_from.induct)
  case (1 rnd i this)
  show ?case
  proof (cases "i < 15")
    case True
    have u: "[i..<15] = i # [Suc i..<15]" using True by (simp add: upt_conv_Cons)
    have "generateMicroRipples_from rnd i this =
       generateMicroRipples_from rnd (Suc i)
             (this\<lparr> microRipples := microRipples this @ [microRipple_at rnd this i] \<rparr>)"
      using True by (subst generateMicroRipples_from.simps) simp
    also have "\<dots> = this\<lparr> microRipples := microRipples this @ map (microRipple_at rnd this) [i..<15] \<rparr>"
      unfolding "1.IH"[OF True] u by simp
    finally show ?thesis .
  next
    case False
    have "generateMicroRipples_from rnd i this = this"
      using False by (subst generateMicroRipples_from.simps) simp
    then show ?thesis using False by simp
  qed
qed


lemma getActionParams_Some:
  assumes "getActionParams k = Some p"
  shows "\<exists>a. k = ACTIONS a"
  using assms by (cases k) simp_all

lemma profile_positive:
  assumes "getActionParams k = Some p"
  shows "0 < p_lifespan p \<and> 0 < p_speed p \<and> 0 < p_maxRadius p \<and> 0 < p_amplitude p \<and>
     0 < p_damping p \<and> p_damping p < 1"
proof -
  obtain a where a: "k = ACTIONS a" using getActionParams_Some[OF assms] by blast
  show ?thesis using assms unfolding a by (cases a) auto
qed

lemma new_Ripple_fields:
  assumes "new_Ripple rnd x0 y0 k t0 = Inr r"
  shows "\<exists>p. getActionParams k = Some p \<and>
     x r = x0 \<and> y r = y0 \<and> actionType r = k \<and> startTime r = t0 \<and> age r = 0 \<and>
     maxRadius r = p_maxRadius p \<and> amplitude r = p_amplitude p \<and> damping r = p_damping p \<and>
     speed r = p_speed p \<and> lifespan r = p_lifespan p \<and> color r = p_color p"
proof (cases "getActionParams k")
  case None
  then show ?thesis using assms by (simp add: new_Ripple_def)
next
  case (Some p)
  show ?thesis
  proof (cases "k = ACTIONS POSITIVE_COMMENT")
    case True
    then show ?thesis using assms Some
      by (simp add: new_Ripple_def Let_def generateMicroRipples_def generateMicroRipples_from_eq)
        (auto)
  next
    case False
    then show ?thesis using assms Some
      by (simp add: new_Ripple_def Let_def) auto
  qed
qed

lemma microRipple_at_cong:
  assumes "x a = x b" "y a = y b" "startTime a = startTime b"
  shows "microRipple_at rnd a = microRipple_at rnd b"
  by (rule ext) (simp add: microRipple_at_def assms)

lemma new_Ripple_microRipples:
  assumes "new_Ripple rnd x0 y0 k t0 = Inr r"
  shows "microRipples r = (if k = ACTIONS POSITIVE_COMMENT
        then map (microRipple_at rnd r) [0..<15] else [])"
proof (cases "getActionParams k")
  case None
  then show ?thesis using assms by (simp add: new_Ripple_def)
next
  case (Some p)
  define this where "this = \<lparr> x = x0, y = y0, actionType = k, startTime = t0, age = 0,
                       maxRadius = p_maxRadius p,
                       amplitude = p_amplitude p,
                       damping = p_damping p,
                       speed = p_speed p,
                       lifespan = p_lifespan p,
                       color = p_color p,
                       microRipples = [] \<rparr>"
  have r: "r = (if k = ACTIONS POSITIVE_COMMENT then generateMicroRipples rnd this else this)"
    using assms Some by (auto simp add: new_Ripple_def Let_def this_def)
  show ?thesis
  proof (cases "k = ACTIONS POSITIVE_COMMENT")
    case True
    have e: "r = this\<lparr> microRipples := map (microRipple_at rnd this) [0..<15] \<rparr>"
      using r True by (simp add: generateMicroRipples_def generateMicroRipples_from_eq this_def)
    have "microRipple_at rnd r = microRipple_at rnd this"
      by (rule microRipple_at_cong) (simp_all add: e)
    then show ?thesis using True e by simp
  next
    case False
    then show ?thesis using r by (simp add: this_def)
  qed
qed

lemma constructed_positive:
  assumes "new_Ripple rnd x0 y0 k t0 = Inr r"
  shows "0 < lifespan r" "0 < speed r" "0 < maxRadius r" "0 < amplitude r" "0 < damping r"
    "damping r < 1"
proof -
  obtain p where p: "getActionParams k = Some p" "maxRadius r = p_maxRadius p"
    "amplitude r = p_amplitude p" "damping r = p_damping p" "speed r = p_speed p"
    "lifespan r = p_lifespan p"
    using new_Ripple_fields[OF assms] by blast
  show "0 < lifespan r" "0 < speed r" "0 < maxRadius r" "0 < amplitude r" "0 < damping r"
    "damping r < 1"
    using profile_positive[OF p(1)] p(2-6) by simp_all
qed

lemma new_Ripple_ACTIONS: "\<exists>r. new_Ripple rnd x0 y0 (ACTIONS a) t0 = Inr r"
  by (cases a) (simp_all add: new_Ripple_def Let_def)


subsection \<open>Construction and expansion\<close>

lemma random2_bounds:
  assumes "0 \<le> u" "u < 1" "lo \<le> hi"
  shows "lo \<le> random2 u lo hi \<and> random2 u lo hi \<le> hi"
proof -
  have "0 \<le> u * (hi - lo)" using assms by simp
  moreover have "u * (hi - lo) \<le> 1 * (hi - lo)"
    using assms by (intro mult_right_mono) simp_all
  ultimately show ?thesis by (simp add: random2_def)
qed

lemma new_Ripple_ex_like: "new_Ripple ex_rnd 1200 400 (ACTIONS LIKE) 0 = Inr ex_like"
  by (simp add: new_Ripple_def Let_def ex_like_def)

lemma new_Ripple_ex_silence: "new_Ripple ex_rnd 0 0 (ACTIONS NEGATIVE_COMMENT) 0 = Inr ex_silence"
  by (simp add: new_Ripple_def Let_def ex_silence_def)

lemma sqrt_10000: "sqrt 10000 = 100"
  using real_sqrt_abs2[of 100] by simp

lemma sqrt_22500: "sqrt 22500 = 150"
  using real_sqrt_abs2[of 150] by simp

text \<open>
  Claim C8. For every ripple the constructor builds, at whatever age \<^verbatim>\<open>update\<close> has
  set, \<^verbatim>\<open>getCurrentRadius\<close> does not decrease when the age grows, and once it is
  \<open>maxRadius\<close> it is \<open>maxRadius\<close> at every later age; \<^verbatim>\<open>update(now)\<close> sets the age to
  \<open>now - startTime\<close> and returns false exactly when that age is at least the lifespan.
\<close>

theorem C8_radius_and_expiry:
  assumes "new_Ripple rnd x0 y0 k t0 = Inr r"
  shows "(a1 \<le> a2 \<longrightarrow> getCurrentRadius (r\<lparr>age := a1\<rparr>) \<le> getCurrentRadius (r\<lparr>age := a2\<rparr>)) \<and>
     (a1 \<le> a2 \<and> getCurrentRadius (r\<lparr>age := a1\<rparr>) = maxRadius r \<longrightarrow>
        getCurrentRadius (r\<lparr>age := a2\<rparr>) = maxRadius r) \<and>
     age (fst (Ripple_update (r\<lparr>age := a1\<rparr>) now)) = now - startTime r \<and>
     (snd (Ripple_update (r\<lparr>age := a1\<rparr>) now) = False \<longleftrightarrow> lifespan r \<le> now - startTime r)"
proof -
  have L: "0 < lifespan r" and S: "0 < speed r" using constructed_positive[OF assms] by simp_all
  have mono: "a1 \<le> a2 \<Longrightarrow> a1 / lifespan r * speed r * 50 \<le> a2 / lifespan r * speed r * 50"
    using L S by (simp add: divide_right_mono mult_right_mono)
  have m1: "a1 \<le> a2 \<Longrightarrow> getCurrentRadius (r\<lparr>age := a1\<rparr>) \<le> getCurrentRadius (r\<lparr>age := a2\<rparr>)"
    using mono by (simp add: getCurrentRadius_def Let_def min_def)
  have le: "getCurrentRadius (r\<lparr>age := a2\<rparr>) \<le> maxRadius r"
    by (simp add: getCurrentRadius_def Let_def)
  have m2: "a1 \<le> a2 \<and> getCurrentRadius (r\<lparr>age := a1\<rparr>) = maxRadius r \<Longrightarrow>
        getCurrentRadius (r\<lparr>age := a2\<rparr>) = maxRadius r"
    using m1 le by linarith
  have u: "age (fst (Ripple_update (r\<lparr>age := a1\<rparr>) now)) = now - startTime r"
    "snd (Ripple_update (r\<lparr>age := a1\<rparr>) now) = False \<longleftrightarrow> lifespan r \<le> now - startTime r"
    by (auto simp add: Ripple_update_def Let_def)
  show ?thesis using m1 m2 u by blast
qed

theorem C8_radius_and_expiry_witness:
  "new_Ripple ex_rnd 1200 400 (ACTIONS LIKE) 0 = Inr ex_like \<and>
   (7000::real) \<le> 8000 \<and>
   getCurrentRadius (ex_like\<lparr>age := 7000\<rparr>) = maxRadius ex_like \<and>
   getCurrentRadius (ex_like\<lparr>age := 7000\<rparr>) \<le> getCurrentRadius (ex_like\<lparr>age := 8000\<rparr>) \<and>
   getCurrentRadius (ex_like\<lparr>age := 8000\<rparr>) = maxRadius ex_like \<and>
   lifespan ex_like \<le> 3000 - startTime ex_like \<and>
   snd (Ripple_update (ex_like\<lparr>age := 7000\<rparr>) 3000) = False"
proof -
  have h: "(7000::real) \<le> 8000" by simp
  have m: "getCurrentRadius (ex_like\<lparr>age := 7000\<rparr>) = maxRadius ex_like"
    by (simp add: ex_like_def getCurrentRadius_def Let_def)
  have l: "lifespan ex_like \<le> 3000 - startTime ex_like" by (simp add: ex_like_def)
  from C8_radius_and_expiry[OF new_Ripple_ex_like, of 7000 8000 3000] h m l
  show ?thesis using new_Ripple_ex_like by blast
qed

text \<open>
  Claim C10. With every sample of the generator in \<open>[0, 1)\<close>, the constructor called
  with \<open>POSITIVE_COMMENT\<close>, the kind the scenario of the specification calls Positive,
  returns a ripple with exactly 15 micro-ripples, each with radius in \<open>[30, 60]\<close> and
  a start time within 100 ms of the start time of the ripple. Called with any other
  kind it returns a ripple with none.
\<close>

theorem C10_microRipples:
  assumes "\<forall>n. 0 \<le> rnd n \<and> rnd n < 1"
  shows "(\<exists>r. new_Ripple rnd x0 y0 (ACTIONS POSITIVE_COMMENT) t0 = Inr r \<and>
        length (microRipples r) = 15 \<and>
        (\<forall>m \<in> set (microRipples r).
           30 \<le> micro_radius m \<and> micro_radius m \<le> 60 \<and>
           - 100 \<le> micro_startTime m - startTime r \<and> micro_startTime m - startTime r \<le> 100)) \<and>
     (k \<noteq> ACTIONS POSITIVE_COMMENT \<and> new_Ripple rnd x0 y0 k t0 = Inr r' \<longrightarrow> microRipples r' = [])"
proof -
  obtain r where r: "new_Ripple rnd x0 y0 (ACTIONS POSITIVE_COMMENT) t0 = Inr r"
    using new_Ripple_ACTIONS by blast
  have ms: "microRipples r = map (microRipple_at rnd r) [0..<15]"
    using new_Ripple_microRipples[OF r] by simp
  have len: "length (microRipples r) = 15" by (simp add: ms)
  have each: "30 \<le> micro_radius m \<and> micro_radius m \<le> 60 \<and>
           - 100 \<le> micro_startTime m - startTime r \<and> micro_startTime m - startTime r \<le> 100"
    if "m \<in> set (microRipples r)" for m
  proof -
    have "m \<in> set (map (microRipple_at rnd r) [0..<15])" using that unfolding ms .
    then obtain i where m: "m = microRipple_at rnd r i" by auto
    have a: "30 \<le> random2 (rnd (4 * i + 3)) 30 60 \<and> random2 (rnd (4 * i + 3)) 30 60 \<le> 60"
      using assms by (intro random2_bounds) simp_all
    have b: "- 100 \<le> random2 (rnd (4 * i + 2)) (- 100) 100 \<and>
       random2 (rnd (4 * i + 2)) (- 100) 100 \<le> 100"
      using assms by (intro random2_bounds) simp_all
    show ?thesis using a b by (simp add: m microRipple_at_def Let_def)
  qed
  have other: "k \<noteq> ACTIONS POSITIVE_COMMENT \<and> new_Ripple rnd x0 y0 k t0 = Inr r' \<Longrightarrow>
     microRipples r' = []"
    using new_Ripple_microRipples[of rnd x0 y0 k t0 r'] by simp
  show ?thesis using r len each other by blast
qed

theorem C10_microRipples_witness:
  "(\<forall>n. 0 \<le> ex_rnd n \<and> ex_rnd n < 1) \<and>
   (\<exists>r. new_Ripple ex_rnd 1200 400 (ACTIONS POSITIVE_COMMENT) 0 = Inr r \<and>
        length (microRipples r) = 15) \<and>
   ACTIONS LIKE \<noteq> ACTIONS POSITIVE_COMMENT \<and>
   new_Ripple ex_rnd 1200 400 (ACTIONS LIKE) 0 = Inr ex_like \<and>
   microRipples ex_like = []"
proof -
  have h: "\<forall>n. 0 \<le> ex_rnd n \<and> ex_rnd n < 1" by (simp add: ex_rnd_def)
  have k: "ACTIONS LIKE \<noteq> ACTIONS POSITIVE_COMMENT" by simp
  from C10_microRipples[OF h, of 1200 400 0 "ACTIONS LIKE" ex_like] k new_Ripple_ex_like
  have "(\<exists>r. new_Ripple ex_rnd 1200 400 (ACTIONS POSITIVE_COMMENT) 0 = Inr r \<and>
        length (microRipples r) = 15)" and "microRipples ex_like = []"
    by blast+
  then show ?thesis using h k new_Ripple_ex_like by blast
qed

subsection \<open>Damping\<close>

text \<open>
  Claim C6. \<^verbatim>\<open>this.shouldDamp(other, now)\<close> is true exactly when \<open>this\<close> has the kind
  \<open>NEGATIVE_COMMENT\<close> (SilenceComment), \<open>other\<close> is not the object \<open>this\<close>, and the
  Euclidean distance between the two positions is less than 1.5 times the current
  radius of \<open>this\<close>. So it is false of a ripple and itself, false when \<open>this\<close> has any
  other kind, and a Silence ripple with current radius 100 damps another ripple
  exactly when their distance is less than 150.
\<close>

theorem C6_shouldDamp:
  "(shouldDamp h this other now \<longleftrightarrow>
      actionType (h this) = ACTIONS NEGATIVE_COMMENT \<and> other \<noteq> this \<and>
      sqrt ((x (h this) - x (h other)) * (x (h this) - x (h other)) +
            (y (h this) - y (h other)) * (y (h this) - y (h other)))
        < 1.5 * getCurrentRadius (h this)) \<and>
   \<not> shouldDamp h this this now \<and>
   (actionType (h this) \<noteq> ACTIONS NEGATIVE_COMMENT \<longrightarrow> \<not> shouldDamp h this other now) \<and>
   (actionType (h this) = ACTIONS NEGATIVE_COMMENT \<and> other \<noteq> this \<and>
    getCurrentRadius (h this) = 100 \<longrightarrow>
      (shouldDamp h this other now \<longleftrightarrow>
         sqrt ((x (h this) - x (h other)) * (x (h this) - x (h other)) +
               (y (h this) - y (h other)) * (y (h this) - y (h other))) < 150))"
  by (simp add: shouldDamp_def Let_def mult.commute)

theorem C6_shouldDamp_witness:
  "actionType (ex_store 0) = ACTIONS NEGATIVE_COMMENT \<and> (1::nat) \<noteq> 0 \<and> (2::nat) \<noteq> 0 \<and>
   getCurrentRadius (ex_store 0) = 100 \<and>
   shouldDamp ex_store 0 1 2800 \<and> \<not> shouldDamp ex_store 0 2 2800 \<and>
   actionType (ex_store 1) \<noteq> ACTIONS NEGATIVE_COMMENT \<and> \<not> shouldDamp ex_store 1 0 2800"
proof -
  have k: "actionType (ex_store 0) = ACTIONS NEGATIVE_COMMENT"
    by (simp add: ex_store_def ex_silence_def)
  have r: "getCurrentRadius (ex_store 0) = 100"
    by (simp add: ex_store_def ex_silence_def getCurrentRadius_def Let_def)
  have d1: "sqrt ((x (ex_store 0) - x (ex_store 1)) * (x (ex_store 0) - x (ex_store 1)) +
               (y (ex_store 0) - y (ex_store 1)) * (y (ex_store 0) - y (ex_store 1))) = 100"
    by (simp add: ex_store_def ex_silence_def ex_like_def sqrt_10000)
  have d2: "sqrt ((x (ex_store 0) - x (ex_store 2)) * (x (ex_store 0) - x (ex_store 2)) +
               (y (ex_store 0) - y (ex_store 2)) * (y (ex_store 0) - y (ex_store 2))) = 150"
    by (simp add: ex_store_def ex_silence_def ex_like_def sqrt_22500)
  have k1: "actionType (ex_store 1) \<noteq> ACTIONS NEGATIVE_COMMENT"
    by (simp add: ex_store_def ex_like_def)
  have a: "shouldDamp ex_store 0 1 2800"
    using C6_shouldDamp[of ex_store 0 1 2800] k r d1 by simp
  have b: "\<not> shouldDamp ex_store 0 2 2800"
    using C6_shouldDamp[of ex_store 0 2 2800] k r d2 by simp
  have c: "\<not> shouldDamp ex_store 1 0 2800"
    using C6_shouldDamp[of ex_store 1 0 2800] k1 by blast
  show ?thesis using k r a b k1 c by simp
qed


subsection \<open>Amplitude\<close>

lemma getCurrentRadius_mono:
  assumes "0 < lifespan r" "0 < speed r" "a1 \<le> a2"
  shows "getCurrentRadius (r\<lparr>age := a1\<rparr>) \<le> getCurrentRadius (r\<lparr>age := a2\<rparr>)"
proof -
  have "a1 / lifespan r * speed r * 50 \<le> a2 / lifespan r * speed r * 50"
    using assms by (simp add: divide_right_mono mult_right_mono)
  then show ?thesis by (simp add: getCurrentRadius_def Let_def min_def)
qed

lemma fade_bounds:
  assumes "0 < L" "a1 \<le> a2" "a2 \<le> (L::real)"
  shows "0 \<le> 1 - a2 / L * 0.7" "1 - a2 / L * 0.7 \<le> 1 - a1 / L * 0.7"
proof -
  have "a2 / L \<le> 1" using assms by simp
  then show "0 \<le> 1 - a2 / L * 0.7" by simp
  have "a1 / L \<le> a2 / L" using assms by (simp add: divide_right_mono)
  then show "1 - a2 / L * 0.7 \<le> 1 - a1 / L * 0.7" by simp
qed

lemma getCurrentAmplitude_age:
  "getCurrentAmplitude (r\<lparr>age := a\<rparr>) =
     (if actionType r = ACTIONS DISLIKE
      then amplitude r * (damping r powr (getCurrentRadius (r\<lparr>age := a\<rparr>) / 10)) *
           (1 - sin (a / lifespan r * pi * 2) * 0.1)
      else amplitude r * (damping r powr (getCurrentRadius (r\<lparr>age := a\<rparr>) / 10))) *
     (1 - a / lifespan r * 0.7)"
  by (simp add: getCurrentAmplitude_def Let_def)

lemma droop_bounds: "0 \<le> 1 - sin t * (0.1::real)"
proof -
  have "sin t \<le> 10" using sin_le_one[of t] by linarith
  then show ?thesis by simp
qed

text \<open>
  Claim C9. For every ripple the constructor builds and every age from 0 to its
  lifespan, \<^verbatim>\<open>getCurrentAmplitude\<close> is at least 0; and for the three kinds other than
  \<open>DISLIKE\<close> it does not increase when the age grows within that range.
\<close>

theorem C9_amplitude:
  assumes "new_Ripple rnd x0 y0 k t0 = Inr r"
  shows "(0 \<le> a \<and> a \<le> lifespan r \<longrightarrow> 0 \<le> getCurrentAmplitude (r\<lparr>age := a\<rparr>)) \<and>
     (k \<noteq> ACTIONS DISLIKE \<and> 0 \<le> a1 \<and> a1 \<le> a2 \<and> a2 \<le> lifespan r \<longrightarrow>
        getCurrentAmplitude (r\<lparr>age := a2\<rparr>) \<le> getCurrentAmplitude (r\<lparr>age := a1\<rparr>))"
proof -
  have L: "0 < lifespan r" and S: "0 < speed r" and A: "0 < amplitude r"
    and D: "0 < damping r" "damping r < 1"
    using constructed_positive[OF assms] by simp_all
  have K: "actionType r = k" using new_Ripple_fields[OF assms] by blast
  have nonneg: "0 \<le> getCurrentAmplitude (r\<lparr>age := a\<rparr>)" if "a \<le> lifespan r"
  proof -
    have f: "0 \<le> 1 - a / lifespan r * 0.7" using fade_bounds(1)[OF L order_refl that] .
    have b: "0 \<le> amplitude r * (damping r powr (getCurrentRadius (r\<lparr>age := a\<rparr>) / 10))"
      using A by simp
    have c: "0 \<le> amplitude r * (damping r powr (getCurrentRadius (r\<lparr>age := a\<rparr>) / 10)) *
           (1 - sin (a / lifespan r * pi * 2) * 0.1)"
      using b droop_bounds by (rule mult_nonneg_nonneg)
    show ?thesis
      unfolding getCurrentAmplitude_age using b c f by (simp del: powr_ge_zero)
  qed
  have mono: "getCurrentAmplitude (r\<lparr>age := a2\<rparr>) \<le> getCurrentAmplitude (r\<lparr>age := a1\<rparr>)"
    if "k \<noteq> ACTIONS DISLIKE" "a1 \<le> a2" "a2 \<le> lifespan r"
  proof -
    have R: "getCurrentRadius (r\<lparr>age := a1\<rparr>) / 10 \<le> getCurrentRadius (r\<lparr>age := a2\<rparr>) / 10"
      using getCurrentRadius_mono[OF L S that(2)] by simp
    have P: "damping r powr (getCurrentRadius (r\<lparr>age := a2\<rparr>) / 10)
        \<le> damping r powr (getCurrentRadius (r\<lparr>age := a1\<rparr>) / 10)"
      using R D by (intro powr_mono') simp_all
    have F: "amplitude r * (damping r powr (getCurrentRadius (r\<lparr>age := a2\<rparr>) / 10))
        \<le> amplitude r * (damping r powr (getCurrentRadius (r\<lparr>age := a1\<rparr>) / 10))"
      using P A by (intro mult_left_mono) simp_all
    have F0: "0 \<le> amplitude r * (damping r powr (getCurrentRadius (r\<lparr>age := a1\<rparr>) / 10))"
      using A by simp
    have G: "0 \<le> 1 - a2 / lifespan r * 0.7" "1 - a2 / lifespan r * 0.7 \<le> 1 - a1 / lifespan r * 0.7"
      using fade_bounds[OF L that(2,3)] by simp_all
    have "amplitude r * (damping r powr (getCurrentRadius (r\<lparr>age := a2\<rparr>) / 10)) *
            (1 - a2 / lifespan r * 0.7)
       \<le> amplitude r * (damping r powr (getCurrentRadius (r\<lparr>age := a1\<rparr>) / 10)) *
            (1 - a1 / lifespan r * 0.7)"
      using F G(2) F0 G(1) by (rule mult_mono)
    then show ?thesis
      unfolding getCurrentAmplitude_age using that(1) K by simp
  qed
  show ?thesis using nonneg mono by blast
qed


theorem C9_amplitude_witness:
  "new_Ripple ex_rnd 0 0 (ACTIONS NEGATIVE_COMMENT) 0 = Inr ex_silence \<and>
   ACTIONS NEGATIVE_COMMENT \<noteq> ACTIONS DISLIKE \<and>
   (0::real) \<le> 1000 \<and> (1000::real) \<le> 3500 \<and> 3500 \<le> lifespan ex_silence \<and>
   0 \<le> getCurrentAmplitude (ex_silence\<lparr>age := 1000\<rparr>) \<and>
   getCurrentAmplitude (ex_silence\<lparr>age := 3500\<rparr>) \<le> getCurrentAmplitude (ex_silence\<lparr>age := 1000\<rparr>)"
proof -
  have k: "ACTIONS NEGATIVE_COMMENT \<noteq> ACTIONS DISLIKE" by simp
  have h: "(0::real) \<le> 1000" "(1000::real) \<le> 3500" by simp_all
  have l: "3500 \<le> lifespan ex_silence" by (simp add: ex_silence_def)
  have "1000 \<le> lifespan ex_silence" using l by simp
  with C9_amplitude[OF new_Ripple_ex_silence, of 1000 1000 3500] k h l
  show ?thesis using new_Ripple_ex_silence by blast
qed


subsection \<open>The ripple pass of a frame\<close>

lemma draw_callback_eq:
  "draw_callback ripples now h r =
     (set_age now h r, call_in ripples now (set_age now h r) r,
      now - startTime (h r) < lifespan (h r))"
  by (simp add: draw_callback_def Ripple_update_def set_age_def call_in_def Let_def)

lemma set_age_fields [simp]:
  "startTime (set_age now h r q) = startTime (h q)"
  "lifespan (set_age now h r q) = lifespan (h q)"
  "amplitude (set_age now h r q) = amplitude (h q)"
  by (simp_all add: set_age_def)

lemma age_all_Nil [simp]: "age_all now [] h = h"
  by (simp add: age_all_def)

lemma age_all_Cons [simp]: "age_all now (r # rs) h = age_all now rs (set_age now h r)"
  by (simp add: age_all_def)

lemma filter_loop_eq:
  "filter_loop all now rest h =
     (age_all now rest h,
      filter (\<lambda>r. now - startTime (h r) < lifespan (h r)) rest,
      concat (map (\<lambda>i. call_in all now (age_all now (take (Suc i) rest) h) (rest ! i))
                  [0..<length rest]))"
proof (induction rest arbitrary: h)
  case Nil
  show ?case by simp
next
  case (Cons r rs)
  have u: "[0..<length (r # rs)] = 0 # map Suc [0..<length rs]"
    by (simp add: upt_conv_Cons map_Suc_upt del: upt_Suc)
  show ?case
    unfolding u
    by (simp add: draw_callback_eq Cons.IH o_def)
qed

lemma age_all_apply:
  "age_all now rs h q =
     (if q \<in> set rs then (h q)\<lparr> age := now - startTime (h q) \<rparr> else h q)"
proof (induction rs arbitrary: h)
  case Nil
  show ?case by simp
next
  case (Cons r rs)
  show ?case by (simp add: Cons.IH) (simp add: set_age_def)
qed

lemma getCurrentAmplitude_scaled:
  "getCurrentAmplitude (q\<lparr> amplitude := amplitude q * c \<rparr>) = getCurrentAmplitude q * c"
  by (simp add: getCurrentAmplitude_def getCurrentRadius_def Let_def)

text \<open>
  Claim C7, as amended. In a frame, every ripple whose \<^verbatim>\<open>update(now)\<close> returns false
  is removed from the array and the others stay, in their order. Each surviving
  ripple is rendered once: with its \<^verbatim>\<open>amplitude\<close> multiplied by 0.3, which multiplies
  the amplitude it is drawn with by 0.3, exactly when some ripple of the array as it
  was when the frame began satisfies \<^verbatim>\<open>shouldDamp\<close> against it, and as stored
  otherwise. The ripples that expire in this frame are still in that array and take
  part in the decision; the ripples before the rendered one are compared at their age
  of this frame, those after it at the age of the previous frame. After the frame
  the store differs from the one before only in the ages of the ripples of the array:
  every stored amplitude is unchanged.
\<close>

theorem C7_draw_ripples:
  "draw_ripples ripples now h =
     (age_all now ripples h,
      filter (\<lambda>r. snd (Ripple_update (h r) now)) ripples,
      frame_calls ripples now h) \<and>
   (\<forall>q. age_all now ripples h q =
      (if q \<in> set ripples then (h q)\<lparr> age := now - startTime (h q) \<rparr> else h q)) \<and>
   (\<forall>q. amplitude (age_all now ripples h q) = amplitude (h q)) \<and>
   getCurrentAmplitude (r\<lparr> amplitude := amplitude r * 0.3 \<rparr>) = getCurrentAmplitude r * 0.3"
proof -
  have a: "(\<lambda>r. snd (Ripple_update (h r) now)) = (\<lambda>r. now - startTime (h r) < lifespan (h r))"
    by (rule ext) (simp add: Ripple_update_def Let_def)
  have b: "draw_ripples ripples now h =
     (age_all now ripples h,
      filter (\<lambda>r. snd (Ripple_update (h r) now)) ripples,
      frame_calls ripples now h)"
    unfolding a by (simp add: draw_ripples_def filter_loop_eq frame_calls_def)
  have c: "\<forall>q. amplitude (age_all now ripples h q) = amplitude (h q)"
    by (simp add: age_all_apply)
  show ?thesis using b c age_all_apply getCurrentAmplitude_scaled by blast
qed

text \<open>
  A ripple that expires in the frame still damps. At clock 3500 the Silence ripple
  has reached its lifespan and is removed; the Like ripple is the only survivor, so
  no surviving ripple damps it; it is rendered with amplitude 0.3 instead of 1.
\<close>

theorem C7_counterexample:
  "snd (Ripple_update (ex_tick_store 0) 3500) = False \<and>
   fst (snd (draw_ripples [0, 1] 3500 ex_tick_store)) = [1] \<and>
   snd (snd (draw_ripples [0, 1] 3500 ex_tick_store)) =
     [(1, ex_like\<lparr> x := 60, y := 80, startTime := 1000, age := 2500, amplitude := 0.3 \<rparr>)] \<and>
   amplitude (ex_tick_store 1) = 1 \<and>
   \<not> damped_by_survivor [1] (fst (draw_ripples [0, 1] 3500 ex_tick_store)) 3500 1"
  by (simp add: draw_ripples_def draw_callback_def Ripple_update_def shouldDamp_def
      getCurrentRadius_def damped_by_survivor_def Let_def ex_tick_store_def ex_silence_def
      ex_like_def sqrt_10000)

end
